theory Spec2Isabelle
  imports Main "HOL-Library.AList"
begin

section \<open>JavaScript values, exceptions and the host environment\<close>

text \<open>
  The library stores and logs values of TypeScript type \<open>unknown\<close>. The values modelled
  are the primitives and tree-shaped arrays and objects; an object is the list of its own
  enumerable string-keyed properties. Numbers are integers. Functions, symbols,
  non-integer numbers, objects with a \<open>toJSON\<close> method and cyclic object graphs are not
  modelled.
\<close>

datatype jsval =
    JUndefined
  | JNull
  | JBool bool
  | JNum int
  | JStr string
  | JBigInt int
  | JArray "jsval list"
  | JObject "(string \<times> jsval) list"

text \<open>A thrown exception: the class of the error object and its message.\<close>

datatype error = Error string | TypeError string

type_synonym handle = nat
type_synonym addr = nat
type_synonym entries = "(string \<times> jsval) list"

text \<open>
  The host framework's request object, as far as this library reads it:
  \<open>req.method\<close> (the field \<open>req_method\<close>), \<open>req.url\<close>, \<open>req.ip\<close>, \<open>req.socket.remoteAddress\<close>,
  \<open>req.headers\<close> and \<open>req.app\<close>. \<open>None\<close> is JavaScript's \<open>undefined\<close>.
\<close>

record socket =
  remoteAddress :: "string option"

record request =
  req_method :: string
  url :: string
  ip :: "string option"
  socket :: socket
  headers :: "string \<Rightarrow> string option"
  req_app :: handle

text \<open>A JSON document, the result of \<open>JSON.stringify\<close>, as abstract syntax.\<close>

datatype json =
    JsonNull
  | JsonBool bool
  | JsonNumber int
  | JsonString string
  | JsonArray "json list"
  | JsonObject "(string \<times> json) list"

text \<open>One call of a \<open>console\<close> method: the method and its arguments.\<close>

datatype channel = ConsoleDebug | ConsoleInfo | ConsoleWarn | ConsoleError | ConsoleLog

datatype console_arg = Text string | JsonText json | UndefinedArg

text \<open>
  What the runtime and the host provide: the clock read by \<open>Date.now()\<close> and
  \<open>new Date()\<close> (milliseconds since the epoch), the rendering \<open>Date.prototype.toISOString\<close>,
  the base-36 renderings \<open>Math.random().toString(36)\<close> of the successive random draws,
  the request objects by handle, and the calls made on \<open>console\<close> so far, oldest first.
\<close>

record host =
  clock :: nat
  toISOString :: "nat \<Rightarrow> string"
  random_seq :: "nat \<Rightarrow> string"
  random_pos :: nat
  requests :: "handle \<Rightarrow> request"
  console :: "(channel \<times> console_arg list) list"

subsection \<open>Runtime built-ins used by the logger\<close>

text \<open>
  \<open>JSON.stringify\<close> follows ECMA-262: \<open>SerializeJSONProperty\<close> yields no text for
  \<open>undefined\<close> (the property is omitted from an object, an array element becomes
  \<open>null\<close>) and throws a \<open>TypeError\<close> on a BigInt.
\<close>

fun SerializeJSONProperty :: "jsval \<Rightarrow> error + json option"
  and SerializeJSONObject :: "(string \<times> jsval) list \<Rightarrow> error + (string \<times> json) list"
  and SerializeJSONArray :: "jsval list \<Rightarrow> error + json list"
where
  "SerializeJSONProperty JUndefined = Inr None"
| "SerializeJSONProperty JNull = Inr (Some JsonNull)"
| "SerializeJSONProperty (JBool b) = Inr (Some (JsonBool b))"
| "SerializeJSONProperty (JNum n) = Inr (Some (JsonNumber n))"
| "SerializeJSONProperty (JStr s) = Inr (Some (JsonString s))"
| "SerializeJSONProperty (JBigInt n) = Inl (TypeError ''Do not know how to serialize a BigInt'')"
| "SerializeJSONProperty (JArray vs) =
     (case SerializeJSONArray vs of Inl e \<Rightarrow> Inl e | Inr js \<Rightarrow> Inr (Some (JsonArray js)))"
| "SerializeJSONProperty (JObject ps) =
     (case SerializeJSONObject ps of Inl e \<Rightarrow> Inl e | Inr ms \<Rightarrow> Inr (Some (JsonObject ms)))"
| "SerializeJSONObject [] = Inr []"
| "SerializeJSONObject ((k, v) # ps) =
     (case SerializeJSONProperty v of
        Inl e \<Rightarrow> Inl e
      | Inr None \<Rightarrow> SerializeJSONObject ps
      | Inr (Some j) \<Rightarrow>
          (case SerializeJSONObject ps of Inl e \<Rightarrow> Inl e | Inr ms \<Rightarrow> Inr ((k, j) # ms)))"
| "SerializeJSONArray [] = Inr []"
| "SerializeJSONArray (v # vs) =
     (case SerializeJSONProperty v of
        Inl e \<Rightarrow> Inl e
      | Inr r \<Rightarrow>
          (case SerializeJSONArray vs of
             Inl e \<Rightarrow> Inl e
           | Inr js \<Rightarrow> Inr ((case r of None \<Rightarrow> JsonNull | Some j \<Rightarrow> j) # js)))"

text \<open>
  \<open>JSON.stringify(value, null, 2)\<close>: the document is kept as abstract syntax, so the
  indentation argument has no effect here; the result is \<open>undefined\<close> (\<open>None\<close>) when the
  value itself is \<open>undefined\<close>.
\<close>

definition JSON_stringify :: "jsval \<Rightarrow> error + json option" where
  "JSON_stringify v = SerializeJSONProperty v"


text \<open>\<open>String.prototype.toUpperCase\<close>, on the ASCII letters.\<close>

definition upper_char :: "char \<Rightarrow> char" where
  "upper_char c =
     (case map_of (zip ''abcdefghijklmnopqrstuvwxyz'' ''ABCDEFGHIJKLMNOPQRSTUVWXYZ'') c of
        None \<Rightarrow> c
      | Some u \<Rightarrow> u)"

definition toUpperCase :: "string \<Rightarrow> string" where
  "toUpperCase s = map upper_char s"

text \<open>
  \<open>a || b\<close> on operands of type \<open>string | undefined\<close>: the first operand unless it is
  falsy (\<open>undefined\<close> or the empty string).
\<close>

definition or_else :: "string option \<Rightarrow> string option \<Rightarrow> string option" where
  "or_else a b = (case a of None \<Rightarrow> b | Some s \<Rightarrow> if s = [] then b else Some s)"

definition str_or_undefined :: "string option \<Rightarrow> jsval" where
  "str_or_undefined a = (case a of None \<Rightarrow> JUndefined | Some s \<Rightarrow> JStr s)"

text \<open>
  Object spread \<open>{...target, ...source}\<close>: each own property of the source, in order,
  is defined on the target; an existing key keeps its place and takes the new value.
  The lists keep the order of definition; the theorems read an object through
  \<open>map_of\<close>, so the place the runtime gives to index-like keys plays no part.
\<close>

definition spread :: "entries \<Rightarrow> entries \<Rightarrow> entries" where
  "spread target source = foldl (\<lambda>obj (k, v). AList.update k v obj) target source"

definition console_call :: "channel \<Rightarrow> console_arg list \<Rightarrow> host \<Rightarrow> host" where
  "console_call c args e = e\<lparr>console := console e @ [(c, args)]\<rparr>"

section \<open>The request-bound logger (logger.ts)\<close>

record logger =
  debug :: "string \<Rightarrow> entries option \<Rightarrow> host \<Rightarrow> error + host"
  info :: "string \<Rightarrow> entries option \<Rightarrow> host \<Rightarrow> error + host"
  warn :: "string \<Rightarrow> entries option \<Rightarrow> host \<Rightarrow> error + host"
  error :: "string \<Rightarrow> entries option \<Rightarrow> host \<Rightarrow> error + host"

text \<open>
  The object literal \<open>context\<close> of \<open>logWithContext\<close>, lines 17 to 24: the five
  properties written out, then the spread of \<open>meta\<close>. Spreading \<open>undefined\<close> adds nothing.
\<close>

definition standard_fields :: "string \<Rightarrow> string \<Rightarrow> request \<Rightarrow> entries" where
  "standard_fields timestamp requestId r =
     [(''timestamp'', JStr timestamp),
      (''requestId'', JStr requestId),
      (''method'', JStr (req_method r)),
      (''url'', JStr (url r)),
      (''ip'', str_or_undefined (or_else (ip r) (remoteAddress (socket r))))]"

definition log_context :: "string \<Rightarrow> string \<Rightarrow> request \<Rightarrow> entries option \<Rightarrow> entries" where
  "log_context timestamp requestId r meta =
     spread (standard_fields timestamp requestId r) (case meta of None \<Rightarrow> [] | Some m \<Rightarrow> m)"

definition logWithContext ::
  "string \<Rightarrow> handle \<Rightarrow> string \<Rightarrow> string \<Rightarrow> entries option \<Rightarrow> host \<Rightarrow> error + host" where
  "logWithContext requestId req level message meta e =
     (let timestamp = toISOString e (clock e);
          context = log_context timestamp requestId (requests e req) meta;
          logMessage = ''['' @ timestamp @ ''] ['' @ toUpperCase level @ ''] [''
                       @ requestId @ ''] '' @ message
      in case JSON_stringify (JObject context) of
           Inl err \<Rightarrow> Inl err
         | Inr logData \<Rightarrow>
             (let args = [Text logMessage, Text [CHR 0x0A],
                          (case logData of None \<Rightarrow> UndefinedArg | Some j \<Rightarrow> JsonText j)]
              in Inr (if level = ''debug'' then console_call ConsoleDebug args e
                      else if level = ''info'' then console_call ConsoleInfo args e
                      else if level = ''warn'' then console_call ConsoleWarn args e
                      else if level = ''error'' then console_call ConsoleError args e
                      else console_call ConsoleLog args e)))"

definition createLogger :: "string \<Rightarrow> handle \<Rightarrow> logger" where
  "createLogger requestId req =
     \<lparr>debug = (\<lambda>message meta. logWithContext requestId req ''debug'' message meta),
      info = (\<lambda>message meta. logWithContext requestId req ''info'' message meta),
      warn = (\<lambda>message meta. logWithContext requestId req ''warn'' message meta),
      error = (\<lambda>message meta. logWithContext requestId req ''error'' message meta)\<rparr>"

section \<open>The heap: context objects, Map objects and plain objects\<close>

text \<open>
  Objects that are mutated or whose identity matters live in a heap, a list of cells
  addressed by position. \<open>new\<close> appends a cell, so the address it returns is not in use.
  A \<open>RequestContext\<close> instance is a cell holding its private \<open>data\<close> record; the
  \<open>metadata\<close> field of that record is the address of a \<open>Map\<close> object, whose entries
  are kept in insertion order. Host objects (application, request, response) are
  opaque handles.
\<close>

record RequestContextData =
  app :: handle
  req :: handle
  res :: handle
  config :: entries
  logger :: logger
  requestId :: string
  startTime :: nat
  metadata :: addr

datatype cell =
    ContextCell RequestContextData
  | MapCell entries
  | ObjectCell entries

type_synonym heap = "cell list"

definition alloc :: "cell \<Rightarrow> heap \<Rightarrow> addr \<times> heap" where
  "alloc c h = (length h, h @ [c])"

definition cell_at :: "addr \<Rightarrow> heap \<Rightarrow> cell option" where
  "cell_at a h = (if a < length h then Some (h ! a) else None)"

subsection \<open>Built-ins of \<open>Map\<close> and \<open>Object\<close>\<close>

text \<open>
  Every \<open>Map.prototype\<close> method first checks that its receiver is a Map and throws a
  \<open>TypeError\<close> otherwise.
\<close>

definition map_data :: "addr \<Rightarrow> heap \<Rightarrow> error + entries" where
  "map_data m h =
     (case cell_at m h of
        Some (MapCell es) \<Rightarrow> Inr es
      | _ \<Rightarrow> Inl (TypeError ''Map method called on incompatible receiver''))"

definition Map_set :: "addr \<Rightarrow> string \<Rightarrow> jsval \<Rightarrow> heap \<Rightarrow> error + heap" where
  "Map_set m k v h =
     (case map_data m h of
        Inl e \<Rightarrow> Inl e
      | Inr es \<Rightarrow> Inr (h[m := MapCell (AList.update k v es)]))"

definition Map_get :: "addr \<Rightarrow> string \<Rightarrow> heap \<Rightarrow> error + jsval" where
  "Map_get m k h =
     (case map_data m h of
        Inl e \<Rightarrow> Inl e
      | Inr es \<Rightarrow> Inr (case map_of es k of None \<Rightarrow> JUndefined | Some v \<Rightarrow> v))"

definition Map_has :: "addr \<Rightarrow> string \<Rightarrow> heap \<Rightarrow> error + bool" where
  "Map_has m k h =
     (case map_data m h of
        Inl e \<Rightarrow> Inl e
      | Inr es \<Rightarrow> Inr (map_of es k \<noteq> None))"

definition Map_delete :: "addr \<Rightarrow> string \<Rightarrow> heap \<Rightarrow> error + bool \<times> heap" where
  "Map_delete m k h =
     (case map_data m h of
        Inl e \<Rightarrow> Inl e
      | Inr es \<Rightarrow> Inr (map_of es k \<noteq> None, h[m := MapCell (AList.delete k es)]))"

definition Map_clear :: "addr \<Rightarrow> heap \<Rightarrow> error + heap" where
  "Map_clear m h =
     (case map_data m h of
        Inl e \<Rightarrow> Inl e
      | Inr es \<Rightarrow> Inr (h[m := MapCell []]))"

text \<open>
  \<open>Object.fromEntries(map)\<close> creates a new plain object and defines on it one property
  per entry of the Map, in iteration order.
\<close>

definition Object_fromEntries :: "addr \<Rightarrow> heap \<Rightarrow> error + addr \<times> heap" where
  "Object_fromEntries m h =
     (case map_data m h of
        Inl e \<Rightarrow> Inl e
      | Inr es \<Rightarrow> Inr (alloc (ObjectCell (spread [] es)) h))"

text \<open>
  Any change of state of the object at an address: \<open>f\<close> maps the old state of the cell
  to the new one. Assigning and deleting a property of a plain object are instances.
\<close>

definition mutate :: "addr \<Rightarrow> (cell \<Rightarrow> cell) \<Rightarrow> heap \<Rightarrow> heap" where
  "mutate a f h = (if a < length h then h[a := f (h ! a)] else h)"

definition set_property :: "string \<Rightarrow> jsval \<Rightarrow> cell \<Rightarrow> cell" where
  "set_property k v c = (case c of ObjectCell ps \<Rightarrow> ObjectCell (AList.update k v ps) | _ \<Rightarrow> c)"

definition delete_property :: "string \<Rightarrow> cell \<Rightarrow> cell" where
  "delete_property k c = (case c of ObjectCell ps \<Rightarrow> ObjectCell (AList.delete k ps) | _ \<Rightarrow> c)"

section \<open>The class RequestContext\<close>

text \<open>
  The constructor, lines 65 to 82. \<open>now\<close> is the reading of \<open>Date.now()\<close>. It allocates
  two cells, the Map and the instance, and returns the address of the instance.
\<close>

definition RequestContext_new ::
  "handle \<Rightarrow> handle \<Rightarrow> handle \<Rightarrow> entries \<Rightarrow> string \<Rightarrow> nat \<Rightarrow> heap \<Rightarrow> addr \<times> heap" where
  "RequestContext_new ap rq rs cfg rid now h =
     (let (m, h1) = alloc (MapCell []) h
      in alloc (ContextCell
           \<lparr>app = ap, req = rq, res = rs, config = cfg, logger = createLogger rid rq,
            requestId = rid, startTime = now, metadata = m\<rparr>) h1)"

text \<open>\<open>this.data\<close>; reading it from something that is not a RequestContext throws.\<close>

definition data :: "addr \<Rightarrow> heap \<Rightarrow> error + RequestContextData" where
  "data this h =
     (case cell_at this h of
        Some (ContextCell d) \<Rightarrow> Inr d
      | _ \<Rightarrow> Inl (TypeError ''Cannot read properties of undefined''))"

definition get_app :: "addr \<Rightarrow> heap \<Rightarrow> error + handle" where
  "get_app this h = (case data this h of Inl e \<Rightarrow> Inl e | Inr d \<Rightarrow> Inr (app d))"

definition get_req :: "addr \<Rightarrow> heap \<Rightarrow> error + handle" where
  "get_req this h = (case data this h of Inl e \<Rightarrow> Inl e | Inr d \<Rightarrow> Inr (req d))"

definition get_res :: "addr \<Rightarrow> heap \<Rightarrow> error + handle" where
  "get_res this h = (case data this h of Inl e \<Rightarrow> Inl e | Inr d \<Rightarrow> Inr (res d))"

definition get_config :: "addr \<Rightarrow> heap \<Rightarrow> error + entries" where
  "get_config this h = (case data this h of Inl e \<Rightarrow> Inl e | Inr d \<Rightarrow> Inr (config d))"

definition get_logger :: "addr \<Rightarrow> heap \<Rightarrow> error + logger" where
  "get_logger this h = (case data this h of Inl e \<Rightarrow> Inl e | Inr d \<Rightarrow> Inr (logger d))"

definition get_requestId :: "addr \<Rightarrow> heap \<Rightarrow> error + string" where
  "get_requestId this h = (case data this h of Inl e \<Rightarrow> Inl e | Inr d \<Rightarrow> Inr (requestId d))"

definition get_startTime :: "addr \<Rightarrow> heap \<Rightarrow> error + nat" where
  "get_startTime this h = (case data this h of Inl e \<Rightarrow> Inl e | Inr d \<Rightarrow> Inr (startTime d))"

text \<open>\<open>Date.now() - this.data.startTime\<close>, with \<open>now\<close> the reading of \<open>Date.now()\<close>.\<close>

definition elapsedTime :: "addr \<Rightarrow> nat \<Rightarrow> heap \<Rightarrow> error + int" where
  "elapsedTime this now h =
     (case data this h of Inl e \<Rightarrow> Inl e | Inr d \<Rightarrow> Inr (int now - int (startTime d)))"

definition setMetadata :: "addr \<Rightarrow> string \<Rightarrow> jsval \<Rightarrow> heap \<Rightarrow> error + heap" where
  "setMetadata this key v h =
     (case data this h of Inl e \<Rightarrow> Inl e | Inr d \<Rightarrow> Map_set (metadata d) key v h)"

definition getMetadata :: "addr \<Rightarrow> string \<Rightarrow> heap \<Rightarrow> error + jsval" where
  "getMetadata this key h =
     (case data this h of Inl e \<Rightarrow> Inl e | Inr d \<Rightarrow> Map_get (metadata d) key h)"

definition hasMetadata :: "addr \<Rightarrow> string \<Rightarrow> heap \<Rightarrow> error + bool" where
  "hasMetadata this key h =
     (case data this h of Inl e \<Rightarrow> Inl e | Inr d \<Rightarrow> Map_has (metadata d) key h)"

definition deleteMetadata :: "addr \<Rightarrow> string \<Rightarrow> heap \<Rightarrow> error + bool \<times> heap" where
  "deleteMetadata this key h =
     (case data this h of Inl e \<Rightarrow> Inl e | Inr d \<Rightarrow> Map_delete (metadata d) key h)"

definition getAllMetadata :: "addr \<Rightarrow> heap \<Rightarrow> error + addr \<times> heap" where
  "getAllMetadata this h =
     (case data this h of Inl e \<Rightarrow> Inl e | Inr d \<Rightarrow> Object_fromEntries (metadata d) h)"

definition clearMetadata :: "addr \<Rightarrow> heap \<Rightarrow> error + heap" where
  "clearMetadata this h =
     (case data this h of Inl e \<Rightarrow> Inl e | Inr d \<Rightarrow> Map_clear (metadata d) h)"

text \<open>
  A well-formed context: \<open>this\<close> is a RequestContext whose \<open>metadata\<close> is a Map with
  one entry per key. The constructor establishes this and every method keeps it.
\<close>

definition valid_context :: "addr \<Rightarrow> heap \<Rightarrow> bool" where
  "valid_context this h =
     (case data this h of
        Inl e \<Rightarrow> False
      | Inr d \<Rightarrow>
          (case map_data (metadata d) h of
             Inl e \<Rightarrow> False
           | Inr es \<Rightarrow> distinct (map fst es)))"

text \<open>
  One call on a context, with the reading of the clock where the call takes one, and the
  heap after a sequence of calls made one after the other.
\<close>

datatype operation =
    GetApp | GetReq | GetRes | GetConfig | GetLogger | GetRequestId | GetStartTime
  | ElapsedTime nat
  | SetMetadata string jsval
  | GetMetadata string
  | HasMetadata string
  | DeleteMetadata string
  | GetAllMetadata
  | ClearMetadata

fun perform :: "addr \<Rightarrow> operation \<Rightarrow> heap \<Rightarrow> error + heap" where
  "perform this GetApp h = (case get_app this h of Inl e \<Rightarrow> Inl e | Inr x \<Rightarrow> Inr h)"
| "perform this GetReq h = (case get_req this h of Inl e \<Rightarrow> Inl e | Inr x \<Rightarrow> Inr h)"
| "perform this GetRes h = (case get_res this h of Inl e \<Rightarrow> Inl e | Inr x \<Rightarrow> Inr h)"
| "perform this GetConfig h = (case get_config this h of Inl e \<Rightarrow> Inl e | Inr x \<Rightarrow> Inr h)"
| "perform this GetLogger h = (case get_logger this h of Inl e \<Rightarrow> Inl e | Inr x \<Rightarrow> Inr h)"
| "perform this GetRequestId h =
     (case get_requestId this h of Inl e \<Rightarrow> Inl e | Inr x \<Rightarrow> Inr h)"
| "perform this GetStartTime h =
     (case get_startTime this h of Inl e \<Rightarrow> Inl e | Inr x \<Rightarrow> Inr h)"
| "perform this (ElapsedTime now) h =
     (case elapsedTime this now h of Inl e \<Rightarrow> Inl e | Inr x \<Rightarrow> Inr h)"
| "perform this (SetMetadata k v) h = setMetadata this k v h"
| "perform this (GetMetadata k) h =
     (case getMetadata this k h of Inl e \<Rightarrow> Inl e | Inr x \<Rightarrow> Inr h)"
| "perform this (HasMetadata k) h =
     (case hasMetadata this k h of Inl e \<Rightarrow> Inl e | Inr x \<Rightarrow> Inr h)"
| "perform this (DeleteMetadata k) h =
     (case deleteMetadata this k h of Inl e \<Rightarrow> Inl e | Inr (b, h') \<Rightarrow> Inr h')"
| "perform this GetAllMetadata h =
     (case getAllMetadata this h of Inl e \<Rightarrow> Inl e | Inr (a, h') \<Rightarrow> Inr h')"
| "perform this ClearMetadata h = clearMetadata this h"

fun perform_all :: "addr \<Rightarrow> operation list \<Rightarrow> heap \<Rightarrow> error + heap" where
  "perform_all this [] h = Inr h"
| "perform_all this (x # xs) h =
     (case perform this x h of Inl e \<Rightarrow> Inl e | Inr h' \<Rightarrow> perform_all this xs h')"

section \<open>Scoped storage and the entry-point adapter\<close>

record world =
  heap :: heap
  store :: "addr option"
  host :: host

text \<open>
  Modelled from the spec: \<open>AsyncLocalStorage\<close> is the runtime's scoped storage and is
  not part of the source tree. \<open>getStore\<close> is \<open>current()\<close>; \<open>run(context, fn)\<close> binds
  \<open>context\<close> as the current value for the dynamic extent of \<open>fn\<close> and lets the outer
  binding resume afterwards. Only that synchronous extent is modelled, not the
  continuations that \<open>fn\<close> schedules. The callback is a state transformer that
  returns a result.
\<close>

definition AsyncLocalStorage_getStore :: "world \<Rightarrow> addr option" where
  "AsyncLocalStorage_getStore w = store w"

definition AsyncLocalStorage_run ::
  "addr \<Rightarrow> (world \<Rightarrow> 'a \<times> world) \<Rightarrow> world \<Rightarrow> 'a \<times> world" where
  "AsyncLocalStorage_run context fn w =
     (let outer = store w;
          (r, w') = fn (w\<lparr>store := Some context\<rparr>)
      in (r, w'\<lparr>store := outer\<rparr>))"

definition getContext :: "world \<Rightarrow> addr option" where
  "getContext w = AsyncLocalStorage_getStore w"

definition runInContext :: "addr \<Rightarrow> (world \<Rightarrow> 'a \<times> world) \<Rightarrow> world \<Rightarrow> 'a \<times> world" where
  "runInContext context fn w = AsyncLocalStorage_run context fn w"

subsection \<open>Request identifiers\<close>

text \<open>The decimal digits of a number, as a template literal renders \<open>Date.now()\<close>.\<close>

definition digit_char :: "nat \<Rightarrow> char" where
  "digit_char d = ''0123456789'' ! d"

fun decimal :: "nat \<Rightarrow> string" where
  "decimal n = (if n < 10 then [digit_char n] else decimal (n div 10) @ [digit_char (n mod 10)])"

text \<open>
  \<open>String.prototype.substring(start, end)\<close>: both indices are clamped to the length and
  swapped when out of order.
\<close>

definition substring :: "nat \<Rightarrow> nat \<Rightarrow> string \<Rightarrow> string" where
  "substring start end s =
     (let a = min start (length s); b = min end (length s)
      in take (max a b - min a b) (drop (min a b) s))"

text \<open>\<open>Math.random().toString(36)\<close>: the rendering of the next draw, which is consumed.\<close>

definition Math_random_toString36 :: "host \<Rightarrow> string \<times> host" where
  "Math_random_toString36 e = (random_seq e (random_pos e), e\<lparr>random_pos := Suc (random_pos e)\<rparr>)"

definition generateRequestId :: "host \<Rightarrow> string \<times> host" where
  "generateRequestId e =
     (let now = clock e;
          (r, e') = Math_random_toString36 e
      in (''req_'' @ decimal now @ ''_'' @ substring 2 11 r, e'))"

text \<open>
  Line 217: \<open>(req.headers['x-request-id'] as string) || generateRequestId()\<close>. The
  generator runs only when the header is \<open>undefined\<close> or empty.
\<close>

definition request_id_for :: "handle \<Rightarrow> host \<Rightarrow> string \<times> host" where
  "request_id_for rq e =
     (case headers (requests e rq) ''x-request-id'' of
        None \<Rightarrow> generateRequestId e
      | Some s \<Rightarrow> if s = [] then generateRequestId e else (s, e))"

text \<open>
  The middleware returned by \<open>asyncContext(config)\<close>, applied to a request, a response
  and the continuation \<open>next\<close>. An omitted \<open>config\<close> is the empty object. \<open>next\<close>
  returns nothing or throws, and what it throws propagates.
\<close>

definition asyncContext ::
  "entries option \<Rightarrow> handle \<Rightarrow> handle \<Rightarrow> (world \<Rightarrow> (error + unit) \<times> world) \<Rightarrow> world
   \<Rightarrow> (error + unit) \<times> world" where
  "asyncContext config_arg rq rs next w =
     (let cfg = (case config_arg of None \<Rightarrow> [] | Some c \<Rightarrow> c);
          (rid, e) = request_id_for rq (host w);
          (context, h) =
             RequestContext_new (req_app (requests e rq)) rq rs cfg rid (clock e) (heap w)
      in runInContext context (\<lambda>w'. next w') (w\<lparr>heap := h, host := e\<rparr>))"

text \<open>
  The shape this library documents for a generated identifier: \<open>req_\<close>, the decimal
  digits of a timestamp, an underscore, and a suffix of digits and lower-case letters.
\<close>

definition is_digit :: "char \<Rightarrow> bool" where
  "is_digit c = (c \<in> set ''0123456789'')"

definition is_base36 :: "char \<Rightarrow> bool" where
  "is_base36 c = (c \<in> set ''0123456789abcdefghijklmnopqrstuvwxyz'')"

text \<open>
  What \<open>Number.prototype.toString(36)\<close> returns for a number in the range of
  \<open>Math.random()\<close>: \<open>0\<close>, or \<open>0.\<close> followed by base-36 digits.
\<close>

definition base36_fraction :: "string \<Rightarrow> bool" where
  "base36_fraction r = (r = ''0'' \<or> (take 2 r = ''0.'' \<and> list_all is_base36 (drop 2 r)))"

section \<open>The global accessors (globals.ts)\<close>

definition dollar_app :: "world \<Rightarrow> error + handle" where
  "dollar_app w =
     (case getContext w of
        None \<Rightarrow> Inl (Error ''$app() can only be called within a request context'')
      | Some context \<Rightarrow> get_app context (heap w))"

definition dollar_req :: "world \<Rightarrow> error + handle" where
  "dollar_req w =
     (case getContext w of
        None \<Rightarrow> Inl (Error ''$req() can only be called within a request context'')
      | Some context \<Rightarrow> get_req context (heap w))"

definition dollar_res :: "world \<Rightarrow> error + handle" where
  "dollar_res w =
     (case getContext w of
        None \<Rightarrow> Inl (Error ''$res() can only be called within a request context'')
      | Some context \<Rightarrow> get_res context (heap w))"

definition dollar_config :: "world \<Rightarrow> error + entries" where
  "dollar_config w =
     (case getContext w of
        None \<Rightarrow> Inl (Error ''$config() can only be called within a request context'')
      | Some context \<Rightarrow> get_config context (heap w))"

definition dollar_logger :: "world \<Rightarrow> error + logger" where
  "dollar_logger w =
     (case getContext w of
        None \<Rightarrow> Inl (Error ''$logger() can only be called within a request context'')
      | Some context \<Rightarrow> get_logger context (heap w))"

section \<open>Fixtures\<close>

text \<open>
  A request from which neither address can be read, one that carries a correlation
  header, and a host in which two successive random draws differ only after their
  ninth base-36 digit.
\<close>

definition plain_request :: request where
  "plain_request =
     \<lparr>req_method = ''GET'', url = ''/orders'', ip = None, socket = \<lparr>remoteAddress = None\<rparr>,
      headers = (\<lambda>name. None), req_app = 7\<rparr>"

definition tagged_request :: request where
  "tagged_request =
     \<lparr>req_method = ''POST'', url = ''/pay'', ip = Some ''10.0.0.9'',
      socket = \<lparr>remoteAddress = Some ''10.0.0.1''\<rparr>,
      headers = (\<lambda>name. if name = ''x-request-id'' then Some ''abc123'' else None),
      req_app = 7\<rparr>"

definition sample_host :: host where
  "sample_host =
     \<lparr>clock = 1700000000000,
      toISOString = (\<lambda>t. ''2023-11-14T22:13:20.000Z''),
      random_seq = (\<lambda>i. if i = 0 then ''0.4fzyo82mvyr'' else ''0.4fzyo82mvzz''),
      random_pos = 0,
      requests = (\<lambda>r. if r = 1 then tagged_request else plain_request),
      console = []\<rparr>"

definition sample_world :: world where
  "sample_world = \<lparr>heap = [], store = None, host = sample_host\<rparr>"

text \<open>
  The heap after \<open>new RequestContext(7, 0, 2, {}, 'abc123')\<close> at time 5 on an empty heap
  followed by \<open>setMetadata('user', 'ann')\<close>; the context is at address 1.
\<close>

definition stored_heap :: heap where
  "stored_heap =
     [MapCell [(''user'', JStr ''ann'')],
      ContextCell \<lparr>app = 7, req = 0, res = 2, config = [], logger = createLogger ''abc123'' 0,
                   requestId = ''abc123'', startTime = 5, metadata = 0\<rparr>]"

text \<open>A world in which that context is the current one.\<close>

definition bound_world :: world where
  "bound_world = \<lparr>heap = stored_heap, store = Some 1, host = sample_host\<rparr>"

text \<open>
  A handler that writes the identifier of the context it runs in with \<open>console.log\<close>.
\<close>

definition log_request_id :: "world \<Rightarrow> (error + unit) \<times> world" where
  "log_request_id w =
     (case getContext w of
        None \<Rightarrow> (Inl (Error ''no context''), w)
      | Some context \<Rightarrow>
          (case get_requestId context (heap w) of
             Inl e \<Rightarrow> (Inl e, w)
           | Inr rid \<Rightarrow> (Inr (), w\<lparr>host := console_call ConsoleLog [Text rid] (host w)\<rparr>)))"

section \<open>Facts about the heap\<close>

declare decimal.simps [simp del]

lemma data_Inr_iff: "data this h = Inr d \<longleftrightarrow> this < length h \<and> h ! this = ContextCell d"
  by (auto simp: data_def cell_at_def split: cell.splits)

lemma map_data_Inr_iff: "map_data m h = Inr es \<longleftrightarrow> m < length h \<and> h ! m = MapCell es"
  by (auto simp: map_data_def cell_at_def split: cell.splits)

lemma valid_context_iff:
  "valid_context this h \<longleftrightarrow>
     (\<exists>d es. data this h = Inr d \<and> map_data (metadata d) h = Inr es \<and> distinct (map fst es))"
  by (auto simp: valid_context_def split: sum.splits)

lemma data_update_map:
  "map_data m h = Inr es \<Longrightarrow> data this (h[m := MapCell es']) = data this h"
  by (auto simp: data_def cell_at_def map_data_def nth_list_update split: cell.splits if_splits)

lemma map_data_update_same:
  "m < length h \<Longrightarrow> map_data m (h[m := MapCell es]) = Inr es"
  by (simp add: map_data_def cell_at_def)

lemma data_append: "data this h = Inr d \<Longrightarrow> data this (h @ cs) = Inr d"
  by (auto simp: data_Inr_iff nth_append)

lemma map_data_append: "map_data m h = Inr es \<Longrightarrow> map_data m (h @ cs) = Inr es"
  by (auto simp: map_data_Inr_iff nth_append)

lemma RequestContext_new_heap:
  "RequestContext_new ap rq rs cfg rid now h =
     (Suc (length h),
      h @ [MapCell [],
           ContextCell \<lparr>app = ap, req = rq, res = rs, config = cfg,
                        logger = createLogger rid rq, requestId = rid, startTime = now,
                        metadata = length h\<rparr>])"
  by (simp add: RequestContext_new_def alloc_def)

lemma RequestContext_new_data:
  "RequestContext_new ap rq rs cfg rid now h = (this, h') \<Longrightarrow>
   data this h' = Inr \<lparr>app = ap, req = rq, res = rs, config = cfg,
                         logger = createLogger rid rq, requestId = rid, startTime = now,
                         metadata = length h\<rparr>"
  by (auto simp: RequestContext_new_heap data_Inr_iff nth_append)

lemma RequestContext_new_valid:
  "RequestContext_new ap rq rs cfg rid now h = (this, h') \<Longrightarrow> valid_context this h'"
  by (auto simp: RequestContext_new_heap valid_context_def data_def map_data_def cell_at_def
      nth_append)

lemma map_of_spread: "map_of (spread t s) = map_of t ++ map_of (rev s)"
proof (induction s arbitrary: t)
  case Nil
  then show ?case by (simp add: spread_def)
next
  case (Cons p s)
  obtain a b where p: "p = (a, b)" by (cases p)
  have "spread t (p # s) = spread (AList.update a b t) s"
    by (simp add: spread_def p)
  then have "map_of (spread t (p # s)) = map_of (AList.update a b t) ++ map_of (rev s)"
    using Cons.IH [of "AList.update a b t"] by simp
  also have "\<dots> = map_of t ++ map_of (rev (p # s))"
    by (rule ext) (auto simp: p update_conv' map_add_def split: option.splits)
  finally show ?case .
qed

lemma map_of_rev_distinct: "distinct (map fst xs) \<Longrightarrow> map_of (rev xs) = map_of xs"
proof (induction xs)
  case Nil
  then show ?case by simp
next
  case (Cons p xs)
  obtain a b where p: "p = (a, b)" by (cases p)
  from Cons.prems have notin: "map_of xs a = None" and dist: "distinct (map fst xs)"
    by (auto simp: p map_of_eq_None_iff)
  have "map_of (rev (p # xs)) = map_of [(a, b)] ++ map_of xs"
    using Cons.IH [OF dist] by (simp add: p)
  also have "\<dots> = map_of (p # xs)"
  proof
    fix k
    show "(map_of [(a, b)] ++ map_of xs) k = map_of (p # xs) k"
      using notin by (auto simp: p map_add_def split: option.splits)
  qed
  finally show ?case .
qed


lemma mutate_other: "b \<noteq> a \<Longrightarrow> cell_at b (mutate a f h) = cell_at b h"
  by (simp add: mutate_def cell_at_def)

lemma mutations_other:
  "b \<noteq> a \<Longrightarrow> cell_at b (foldl (\<lambda>h f. mutate a f h) h fs) = cell_at b h"
  by (induction fs arbitrary: h) (simp_all add: mutate_other)

lemma cell_at_append: "a < length h \<Longrightarrow> cell_at a (h @ cs) = cell_at a h"
  by (simp add: cell_at_def nth_append)

lemma perform_preserves:
  assumes "valid_context this h"
  shows "\<exists>h'. perform this x h = Inr h' \<and> valid_context this h' \<and> data this h' = data this h"
proof -
  from assms obtain d es where d: "data this h = Inr d"
    and es: "map_data (metadata d) h = Inr es" and dist: "distinct (map fst es)"
    by (auto simp: valid_context_iff)
  have m_lt: "metadata d < length h" using es by (simp add: map_data_Inr_iff)
  have upd: "valid_context this (h[metadata d := MapCell es']) \<and>
             data this (h[metadata d := MapCell es']) = data this h"
    if "distinct (map fst es')" for es'
    using that d es m_lt
    by (simp add: valid_context_def data_update_map map_data_update_same)
  have app: "valid_context this (h @ cs) \<and> data this (h @ cs) = data this h" for cs
    using d es dist by (simp add: valid_context_def data_append map_data_append)
  show ?thesis
  proof (cases x)
    case (SetMetadata k v)
    then show ?thesis
      using d es upd [of "AList.update k v es"] dist
      by (simp add: setMetadata_def Map_set_def distinct_update)
  next
    case (DeleteMetadata k)
    then show ?thesis
      using d es upd [of "AList.delete k es"] dist
      by (simp add: deleteMetadata_def Map_delete_def distinct_delete)
  next
    case ClearMetadata
    then show ?thesis
      using d es upd [of "[]"] by (simp add: clearMetadata_def Map_clear_def)
  next
    case GetAllMetadata
    then show ?thesis
      using d es app [of "[ObjectCell (spread [] es)]"]
      by (simp add: getAllMetadata_def Object_fromEntries_def alloc_def)
  qed (use assms d es in \<open>simp_all add: get_app_def get_req_def get_res_def get_config_def
        get_logger_def get_requestId_def get_startTime_def elapsedTime_def getMetadata_def
        hasMetadata_def Map_get_def Map_has_def\<close>)
qed

lemma perform_all_preserves:
  "valid_context this h \<Longrightarrow>
   \<exists>h'. perform_all this xs h = Inr h' \<and> valid_context this h' \<and> data this h' = data this h"
proof (induction xs arbitrary: h)
  case Nil
  then show ?case by simp
next
  case (Cons x xs)
  from perform_preserves [OF Cons.prems, of x] obtain h1
    where h1: "perform this x h = Inr h1" "valid_context this h1" "data this h1 = data this h"
    by blast
  from Cons.IH [OF h1(2)] obtain h2
    where h2: "perform_all this xs h1 = Inr h2" "valid_context this h2"
      "data this h2 = data this h1"
    by blast
  show ?case using h1 h2 by simp
qed

lemma stored_heap_built:
  "setMetadata 1 ''user'' (JStr ''ann'') (snd (RequestContext_new 7 0 2 [] ''abc123'' 5 []))
     = Inr stored_heap"
  by (simp add: stored_heap_def RequestContext_new_heap setMetadata_def Map_set_def data_def
      map_data_def cell_at_def)

lemma stored_heap_valid: "valid_context 1 stored_heap"
  by (simp add: stored_heap_def valid_context_def data_def map_data_def cell_at_def)

section \<open>Metadata operations\<close>

text \<open>
  C4. On a well-formed context, for every key \<open>k\<close> and values \<open>v\<close>, \<open>v'\<close>: after
  \<open>setMetadata(k, v)\<close>, \<open>getMetadata(k)\<close> returns \<open>v\<close> and \<open>hasMetadata(k)\<close> returns true;
  a further \<open>setMetadata(k, v')\<close> overwrites the value; \<open>deleteMetadata(k)\<close> returns
  exactly whether the key was present (true on a present key, false on an absent one)
  and afterwards \<open>hasMetadata(k)\<close> returns false. No call throws.
\<close>

theorem metadata_round_trip:
  assumes "valid_context this h"
  shows "\<exists>h1 h2 h3 h4 b.
           setMetadata this k v h = Inr h1 \<and> getMetadata this k h1 = Inr v
         \<and> hasMetadata this k h1 = Inr True
         \<and> setMetadata this k v' h1 = Inr h2 \<and> getMetadata this k h2 = Inr v'
         \<and> deleteMetadata this k h1 = Inr (True, h3) \<and> hasMetadata this k h3 = Inr False
         \<and> deleteMetadata this k h3 = Inr (False, h3)
         \<and> hasMetadata this k h = Inr b \<and> deleteMetadata this k h = Inr (b, h4)
         \<and> hasMetadata this k h4 = Inr False"
proof -
  from assms obtain d es where d: "data this h = Inr d"
    and es: "map_data (metadata d) h = Inr es"
    by (auto simp: valid_context_iff)
  let ?m = "metadata d"
  have len: "?m < length h" using es by (simp add: map_data_Inr_iff)
  let ?h1 = "h[?m := MapCell (AList.update k v es)]"
  have d1: "data this ?h1 = Inr d" using d es by (simp add: data_update_map)
  have m1: "map_data ?m ?h1 = Inr (AList.update k v es)"
    using len by (simp add: map_data_update_same)
  have s1: "setMetadata this k v h = Inr ?h1"
    using d es by (simp add: setMetadata_def Map_set_def)
  have g1: "getMetadata this k ?h1 = Inr v"
    using d1 m1 by (simp add: getMetadata_def Map_get_def update_conv')
  have p1: "hasMetadata this k ?h1 = Inr True"
    using d1 m1 by (simp add: hasMetadata_def Map_has_def update_conv')
  let ?h2 = "?h1[?m := MapCell (AList.update k v' (AList.update k v es))]"
  have s2: "setMetadata this k v' ?h1 = Inr ?h2"
    using d1 m1 by (simp add: setMetadata_def Map_set_def)
  have d2: "data this ?h2 = Inr d" unfolding data_update_map [OF m1] by (rule d1)
  have g2: "getMetadata this k ?h2 = Inr v'"
    using d2 len by (simp add: getMetadata_def Map_get_def update_conv' map_data_update_same)
  let ?h3 = "h[?m := MapCell (AList.delete k es)]"
  have d3: "data this ?h3 = Inr d" using d es by (simp add: data_update_map)
  have m3: "map_data ?m ?h3 = Inr (AList.delete k es)"
    using len by (simp add: map_data_update_same)
  have del: "deleteMetadata this k h = Inr (map_of es k \<noteq> None, ?h3)"
    using d es by (simp add: deleteMetadata_def Map_delete_def)
  have has: "hasMetadata this k h = Inr (map_of es k \<noteq> None)"
    using d es by (simp add: hasMetadata_def Map_has_def)
  have del1: "deleteMetadata this k ?h1 = Inr (True, ?h3)"
    using d1 m1 by (simp add: deleteMetadata_def Map_delete_def update_conv' delete_update_same)
  have p3: "hasMetadata this k ?h3 = Inr False"
    using d3 m3 by (simp add: hasMetadata_def Map_has_def delete_conv')
  have del3: "deleteMetadata this k ?h3 = Inr (False, ?h3)"
    using d3 m3 by (simp add: deleteMetadata_def Map_delete_def delete_conv' delete_idem)
  show ?thesis
    using s1 g1 p1 s2 g2 del1 p3 del3 has del by blast
qed

theorem metadata_round_trip_witness:
  "valid_context 1 (snd (RequestContext_new 7 0 2 [] ''abc123'' 5 []))
   \<and> (\<exists>h1 h2 h3 h4 b.
         setMetadata 1 ''user'' (JStr ''ann'') (snd (RequestContext_new 7 0 2 [] ''abc123'' 5 []))
           = Inr h1
       \<and> getMetadata 1 ''user'' h1 = Inr (JStr ''ann'')
       \<and> hasMetadata 1 ''user'' h1 = Inr True
       \<and> setMetadata 1 ''user'' (JNum 3) h1 = Inr h2
       \<and> getMetadata 1 ''user'' h2 = Inr (JNum 3)
       \<and> deleteMetadata 1 ''user'' h1 = Inr (True, h3)
       \<and> hasMetadata 1 ''user'' h3 = Inr False
       \<and> deleteMetadata 1 ''user'' h3 = Inr (False, h3)
       \<and> hasMetadata 1 ''user'' (snd (RequestContext_new 7 0 2 [] ''abc123'' 5 [])) = Inr b
       \<and> deleteMetadata 1 ''user'' (snd (RequestContext_new 7 0 2 [] ''abc123'' 5 []))
           = Inr (b, h4)
       \<and> hasMetadata 1 ''user'' h4 = Inr False)"
proof -
  have v: "valid_context 1 (snd (RequestContext_new 7 0 2 [] ''abc123'' 5 []))"
    by (rule RequestContext_new_valid [of 7 0 2 "[]" "''abc123''" 5 "[]"])
       (simp add: RequestContext_new_heap)
  show ?thesis
    using v metadata_round_trip [OF v, of "''user''" "JStr ''ann''" "JNum 3"] by blast
qed

text \<open>
  C9. On a well-formed context and for every key \<open>k\<close>: after
  \<open>setMetadata(k, undefined)\<close>, \<open>hasMetadata(k)\<close> returns true and \<open>getMetadata(k)\<close>
  returns \<open>undefined\<close>; and \<open>getMetadata\<close> returns \<open>undefined\<close> as well for every key
  that is not stored. Only \<open>hasMetadata\<close> tells the two states apart.
\<close>

theorem undefined_value_indistinguishable_by_get:
  assumes "valid_context this h"
  shows "(\<exists>h1. setMetadata this k JUndefined h = Inr h1
               \<and> hasMetadata this k h1 = Inr True
               \<and> getMetadata this k h1 = Inr JUndefined)
       \<and> (hasMetadata this k' h = Inr False \<longrightarrow> getMetadata this k' h = Inr JUndefined)"
proof -
  from assms obtain d es where d: "data this h = Inr d"
    and es: "map_data (metadata d) h = Inr es"
    by (auto simp: valid_context_iff)
  have g0: "hasMetadata this k' h = Inr False \<longrightarrow> getMetadata this k' h = Inr JUndefined"
    using d es by (simp add: hasMetadata_def Map_has_def getMetadata_def Map_get_def)
  let ?h1 = "h[metadata d := MapCell (AList.update k JUndefined es)]"
  have s1: "setMetadata this k JUndefined h = Inr ?h1"
    using d es by (simp add: setMetadata_def Map_set_def)
  have d1: "data this ?h1 = Inr d" using d es by (simp add: data_update_map)
  have m1: "map_data (metadata d) ?h1 = Inr (AList.update k JUndefined es)"
    using es by (simp add: map_data_update_same map_data_Inr_iff)
  have g1: "getMetadata this k ?h1 = Inr JUndefined"
    using d1 m1 by (simp add: getMetadata_def Map_get_def update_conv')
  have p1: "hasMetadata this k ?h1 = Inr True"
    using d1 m1 by (simp add: hasMetadata_def Map_has_def update_conv')
  show ?thesis using g0 s1 g1 p1 by simp
qed

theorem undefined_value_indistinguishable_by_get_witness:
  "valid_context 1 stored_heap
   \<and> (\<exists>h1. setMetadata 1 ''user'' JUndefined stored_heap = Inr h1
           \<and> hasMetadata 1 ''user'' h1 = Inr True
           \<and> getMetadata 1 ''user'' h1 = Inr JUndefined)
   \<and> hasMetadata 1 ''token'' stored_heap = Inr False
   \<and> getMetadata 1 ''token'' stored_heap = Inr JUndefined"
proof -
  have a: "hasMetadata 1 ''token'' stored_heap = Inr False"
    by (simp add: stored_heap_def hasMetadata_def Map_has_def data_def map_data_def cell_at_def)
  show ?thesis
    using stored_heap_valid a
      undefined_value_indistinguishable_by_get
        [OF stored_heap_valid, of "''user''" "''token''"]
    by blast
qed

text \<open>
  C6. On a well-formed context, \<open>getAllMetadata()\<close> returns a plain object at an address
  that was not in use before the call, holding the same key/value pairs as the Map at
  that moment; the call leaves every \<open>getMetadata\<close> and \<open>hasMetadata\<close> result as it
  was, and so does every sequence of changes of state applied afterwards to the returned
  object.
\<close>

theorem snapshot_independent:
  assumes "valid_context this h"
  shows "\<exists>a h1 d es ps.
           getAllMetadata this h = Inr (a, h1)
         \<and> cell_at a h = None
         \<and> cell_at a h1 = Some (ObjectCell ps)
         \<and> data this h = Inr d \<and> map_data (metadata d) h = Inr es \<and> map_of ps = map_of es
         \<and> (\<forall>k. getMetadata this k h1 = getMetadata this k h
                \<and> hasMetadata this k h1 = hasMetadata this k h)
         \<and> (\<forall>fs k.
               getMetadata this k (foldl (\<lambda>h' f. mutate a f h') h1 fs) = getMetadata this k h
             \<and> hasMetadata this k (foldl (\<lambda>h' f. mutate a f h') h1 fs) = hasMetadata this k h)"
proof -
  from assms obtain d es where d: "data this h = Inr d"
    and es: "map_data (metadata d) h = Inr es" and dist: "distinct (map fst es)"
    by (auto simp: valid_context_iff)
  let ?a = "length h"
  let ?ps = "spread [] es"
  let ?h1 = "h @ [ObjectCell ?ps]"
  have this_lt: "this < length h" and m_lt: "metadata d < length h"
    using d es by (simp_all add: data_Inr_iff map_data_Inr_iff)
  have snap: "getAllMetadata this h = Inr (?a, ?h1)"
    using d es by (simp add: getAllMetadata_def Object_fromEntries_def alloc_def)
  have fresh: "cell_at ?a h = None" by (simp add: cell_at_def)
  have obj: "cell_at ?a ?h1 = Some (ObjectCell ?ps)" by (simp add: cell_at_def)
  have content: "map_of ?ps = map_of es"
    using dist by (simp add: map_of_spread map_of_rev_distinct)
  have frame: "data this h' = data this h \<and> map_data (metadata d) h' = map_data (metadata d) h"
    if "cell_at this h' = cell_at this h" "cell_at (metadata d) h' = cell_at (metadata d) h" for h'
    using that by (simp add: data_def map_data_def)
  have reads: "getMetadata this k h' = getMetadata this k h \<and> hasMetadata this k h' = hasMetadata this k h"
    if "cell_at this h' = cell_at this h" "cell_at (metadata d) h' = cell_at (metadata d) h" for h' k
    using frame [OF that] d by (simp add: getMetadata_def hasMetadata_def Map_get_def Map_has_def)
  have c1: "cell_at this ?h1 = cell_at this h" "cell_at (metadata d) ?h1 = cell_at (metadata d) h"
    using this_lt m_lt by (simp_all add: cell_at_append)
  have c2: "cell_at this (foldl (\<lambda>h' f. mutate ?a f h') ?h1 fs) = cell_at this h"
           "cell_at (metadata d) (foldl (\<lambda>h' f. mutate ?a f h') ?h1 fs) = cell_at (metadata d) h" for fs
    using this_lt m_lt c1 by (simp_all add: mutations_other)
  show ?thesis
    using snap fresh obj d es content reads [OF c1] reads [OF c2] by blast
qed

theorem snapshot_independent_witness:
  "valid_context 1 stored_heap
   \<and> (\<exists>a h1. getAllMetadata 1 stored_heap = Inr (a, h1)
         \<and> getMetadata 1 ''user''
              (foldl (\<lambda>h' f. mutate a f h') h1
                 [set_property ''user'' (JStr ''eve''), delete_property ''user''])
             = Inr (JStr ''ann'')
         \<and> hasMetadata 1 ''user''
              (foldl (\<lambda>h' f. mutate a f h') h1
                 [set_property ''user'' (JStr ''eve''), delete_property ''user''])
             = Inr True)"
proof -
  have g: "getMetadata 1 ''user'' stored_heap = Inr (JStr ''ann'')"
    by (simp add: stored_heap_def getMetadata_def Map_get_def data_def map_data_def cell_at_def)
  have p: "hasMetadata 1 ''user'' stored_heap = Inr True"
    by (simp add: stored_heap_def hasMetadata_def Map_has_def data_def map_data_def cell_at_def)
  from snapshot_independent [OF stored_heap_valid] obtain a h1
    where s: "getAllMetadata 1 stored_heap = Inr (a, h1)"
      and m: "\<forall>fs k.
                getMetadata 1 k (foldl (\<lambda>h' f. mutate a f h') h1 fs) = getMetadata 1 k stored_heap
              \<and> hasMetadata 1 k (foldl (\<lambda>h' f. mutate a f h') h1 fs) = hasMetadata 1 k stored_heap"
    by blast
  show ?thesis using stored_heap_valid s m g p by metis
qed

section \<open>Frame of the context's own operations\<close>

text \<open>
  C8. For a context built by the constructor and any sequence of calls of its accessors
  and metadata operations, no call throws and afterwards the instance's \<open>data\<close> record
  is the one the constructor stored: \<open>app\<close>, \<open>req\<close>, \<open>res\<close>, \<open>config\<close>, \<open>logger\<close>,
  \<open>requestId\<close> and \<open>startTime\<close> read as the constructor's arguments, the logger it
  created and the clock reading it took. Only the Map that \<open>metadata\<close> refers to, and
  the heap beyond it, may differ.
\<close>

theorem only_metadata_is_mutated:
  assumes "RequestContext_new ap rq rs cfg rid now h0 = (this, h)"
  shows "\<exists>h'. perform_all this xs h = Inr h'
            \<and> data this h' = data this h
            \<and> get_app this h' = Inr ap \<and> get_req this h' = Inr rq \<and> get_res this h' = Inr rs
            \<and> get_config this h' = Inr cfg \<and> get_logger this h' = Inr (createLogger rid rq)
            \<and> get_requestId this h' = Inr rid \<and> get_startTime this h' = Inr now"
proof -
  have v: "valid_context this h" using assms by (rule RequestContext_new_valid)
  from perform_all_preserves [OF v, of xs] obtain h'
    where h': "perform_all this xs h = Inr h'" "data this h' = data this h"
    by blast
  note d0 = RequestContext_new_data [OF assms]
  have d: "data this h' =
     Inr \<lparr>app = ap, req = rq, res = rs, config = cfg, logger = createLogger rid rq,
          requestId = rid, startTime = now, metadata = length h0\<rparr>"
    using h'(2) d0 by simp
  show ?thesis
    using h'(1)
    by (simp add: d d0 get_app_def get_req_def get_res_def get_config_def get_logger_def
        get_requestId_def get_startTime_def)
qed

theorem only_metadata_is_mutated_witness:
  "RequestContext_new 7 0 2 [] ''abc123'' 5 []
     = (1, snd (RequestContext_new 7 0 2 [] ''abc123'' 5 []))
   \<and> (\<exists>h'. perform_all 1
               [SetMetadata ''user'' (JStr ''ann''), GetAllMetadata, ElapsedTime 9,
                DeleteMetadata ''user'', GetLogger, ClearMetadata]
               (snd (RequestContext_new 7 0 2 [] ''abc123'' 5 [])) = Inr h'
          \<and> data 1 h' = data 1 (snd (RequestContext_new 7 0 2 [] ''abc123'' 5 []))
          \<and> get_app 1 h' = Inr 7 \<and> get_req 1 h' = Inr 0 \<and> get_res 1 h' = Inr 2
          \<and> get_config 1 h' = Inr [] \<and> get_logger 1 h' = Inr (createLogger ''abc123'' 0)
          \<and> get_requestId 1 h' = Inr ''abc123'' \<and> get_startTime 1 h' = Inr 5)"
proof -
  have c: "RequestContext_new 7 0 2 [] ''abc123'' 5 []
             = (1, snd (RequestContext_new 7 0 2 [] ''abc123'' 5 []))"
    by (simp add: RequestContext_new_heap)
  show ?thesis
    using c only_metadata_is_mutated [OF c,
        of "[SetMetadata ''user'' (JStr ''ann''), GetAllMetadata, ElapsedTime 9,
             DeleteMetadata ''user'', GetLogger, ClearMetadata]"]
    by blast
qed

section \<open>Elapsed time\<close>

text \<open>
  C7. \<open>elapsedTime\<close> is the clock reading of the call minus the \<open>startTime\<close> stored in
  the context, whatever was read before; for two reads of the same context, the second
  at a clock reading not before the first, the second result is at least the first, and
  the two results differ by exactly the time between the readings.
\<close>

theorem elapsedTime_recomputed_monotone:
  assumes "data this h1 = Inr d" and "data this h2 = Inr d" and "t1 \<le> t2"
  shows "\<exists>e1 e2. elapsedTime this t1 h1 = Inr e1 \<and> elapsedTime this t2 h2 = Inr e2
               \<and> e1 = int t1 - int (startTime d) \<and> e2 = int t2 - int (startTime d)
               \<and> e2 - e1 = int t2 - int t1 \<and> e1 \<le> e2"
  using assms by (simp add: elapsedTime_def)

theorem elapsedTime_recomputed_monotone_witness:
  "data 1 (snd (RequestContext_new 7 0 2 [] ''abc123'' 5 []))
     = Inr \<lparr>app = 7, req = 0, res = 2, config = [], logger = createLogger ''abc123'' 0,
            requestId = ''abc123'', startTime = 5, metadata = 0\<rparr>
   \<and> data 1 stored_heap
     = Inr \<lparr>app = 7, req = 0, res = 2, config = [], logger = createLogger ''abc123'' 0,
            requestId = ''abc123'', startTime = 5, metadata = 0\<rparr>
   \<and> (8::nat) \<le> 20
   \<and> elapsedTime 1 8 (snd (RequestContext_new 7 0 2 [] ''abc123'' 5 [])) = Inr 3
   \<and> elapsedTime 1 20 stored_heap = Inr 15"
proof -
  have a: "data 1 (snd (RequestContext_new 7 0 2 [] ''abc123'' 5 []))
     = Inr \<lparr>app = 7, req = 0, res = 2, config = [], logger = createLogger ''abc123'' 0,
            requestId = ''abc123'', startTime = 5, metadata = 0\<rparr>"
    by (simp add: RequestContext_new_heap data_def cell_at_def)
  have b: "data 1 stored_heap
     = Inr \<lparr>app = 7, req = 0, res = 2, config = [], logger = createLogger ''abc123'' 0,
            requestId = ''abc123'', startTime = 5, metadata = 0\<rparr>"
    by (simp add: stored_heap_def data_def cell_at_def)
  have c: "(8::nat) \<le> 20" by simp
  show ?thesis
    using a b c elapsedTime_recomputed_monotone [OF a b c] by simp
qed

section \<open>The global accessors\<close>

text \<open>
  C1. For each of the five accessors: when no context is current it throws an
  \<open>Error\<close> whose message names that accessor; when a context is current it returns the
  corresponding field of that context's \<open>data\<close>; and whatever it returns is that field of
  the current context, never a value made up in its place.
\<close>

theorem global_accessors:
  "(getContext w = None \<longrightarrow>
      dollar_app w = Inl (Error ''$app() can only be called within a request context'')
    \<and> dollar_req w = Inl (Error ''$req() can only be called within a request context'')
    \<and> dollar_res w = Inl (Error ''$res() can only be called within a request context'')
    \<and> dollar_config w = Inl (Error ''$config() can only be called within a request context'')
    \<and> dollar_logger w = Inl (Error ''$logger() can only be called within a request context''))
 \<and> (getContext w = Some c \<and> data c (heap w) = Inr d \<longrightarrow>
      dollar_app w = Inr (app d) \<and> dollar_req w = Inr (req d) \<and> dollar_res w = Inr (res d)
    \<and> dollar_config w = Inr (config d) \<and> dollar_logger w = Inr (logger d))
 \<and> (dollar_app w = Inr x1 \<longrightarrow>
      (\<exists>c d. getContext w = Some c \<and> data c (heap w) = Inr d \<and> x1 = app d))
 \<and> (dollar_req w = Inr x2 \<longrightarrow>
      (\<exists>c d. getContext w = Some c \<and> data c (heap w) = Inr d \<and> x2 = req d))
 \<and> (dollar_res w = Inr x3 \<longrightarrow>
      (\<exists>c d. getContext w = Some c \<and> data c (heap w) = Inr d \<and> x3 = res d))
 \<and> (dollar_config w = Inr x4 \<longrightarrow>
      (\<exists>c d. getContext w = Some c \<and> data c (heap w) = Inr d \<and> x4 = config d))
 \<and> (dollar_logger w = Inr x5 \<longrightarrow>
      (\<exists>c d. getContext w = Some c \<and> data c (heap w) = Inr d \<and> x5 = logger d))"
  by (auto simp: dollar_app_def dollar_req_def dollar_res_def dollar_config_def dollar_logger_def
      get_app_def get_req_def get_res_def get_config_def get_logger_def
      split: option.splits sum.splits)

theorem global_accessors_witness:
  "getContext sample_world = None
 \<and> dollar_app sample_world = Inl (Error ''$app() can only be called within a request context'')
 \<and> dollar_req sample_world = Inl (Error ''$req() can only be called within a request context'')
 \<and> dollar_res sample_world = Inl (Error ''$res() can only be called within a request context'')
 \<and> dollar_config sample_world
       = Inl (Error ''$config() can only be called within a request context'')
 \<and> dollar_logger sample_world
       = Inl (Error ''$logger() can only be called within a request context'')
 \<and> getContext bound_world = Some 1
 \<and> data 1 (heap bound_world)
       = Inr \<lparr>app = 7, req = 0, res = 2, config = [], logger = createLogger ''abc123'' 0,
              requestId = ''abc123'', startTime = 5, metadata = 0\<rparr>
 \<and> dollar_app bound_world = Inr 7 \<and> dollar_req bound_world = Inr 0
 \<and> dollar_res bound_world = Inr 2 \<and> dollar_config bound_world = Inr []
 \<and> dollar_logger bound_world = Inr (createLogger ''abc123'' 0)
 \<and> (\<exists>c d. getContext bound_world = Some c \<and> data c (heap bound_world) = Inr d
           \<and> 7 = app d \<and> 0 = req d \<and> 2 = res d \<and> [] = config d
           \<and> createLogger ''abc123'' 0 = logger d)"
proof -
  have n: "getContext sample_world = None"
    by (simp add: getContext_def AsyncLocalStorage_getStore_def sample_world_def)
  have b: "getContext bound_world = Some 1"
    by (simp add: getContext_def AsyncLocalStorage_getStore_def bound_world_def)
  have d: "data 1 (heap bound_world)
       = Inr \<lparr>app = 7, req = 0, res = 2, config = [], logger = createLogger ''abc123'' 0,
              requestId = ''abc123'', startTime = 5, metadata = 0\<rparr>"
    by (simp add: bound_world_def stored_heap_def data_def cell_at_def)
  note absent = global_accessors [where w = sample_world]
  note bound = global_accessors [where w = bound_world and c = 1
      and d = "\<lparr>app = 7, req = 0, res = 2, config = [], logger = createLogger ''abc123'' 0,
                requestId = ''abc123'', startTime = 5, metadata = 0\<rparr>"
      and ?x1.0 = 7 and ?x2.0 = 0 and ?x3.0 = 2 and ?x4.0 = "[]"
      and ?x5.0 = "createLogger ''abc123'' 0"]
  have e: "dollar_app sample_world = Inl (Error ''$app() can only be called within a request context'')
      \<and> dollar_req sample_world = Inl (Error ''$req() can only be called within a request context'')
      \<and> dollar_res sample_world = Inl (Error ''$res() can only be called within a request context'')
      \<and> dollar_config sample_world
            = Inl (Error ''$config() can only be called within a request context'')
      \<and> dollar_logger sample_world
            = Inl (Error ''$logger() can only be called within a request context'')"
    using absent n by blast
  have v: "dollar_app bound_world = Inr 7 \<and> dollar_req bound_world = Inr 0
      \<and> dollar_res bound_world = Inr 2 \<and> dollar_config bound_world = Inr []
      \<and> dollar_logger bound_world = Inr (createLogger ''abc123'' 0)"
    using bound b d by simp
  show ?thesis using n b d e v by simp
qed

section \<open>Nested scopes\<close>


section \<open>Request identifiers of the entry-point adapter\<close>

lemma substring_2_11: "substring 2 11 r = take 9 (drop 2 r)"
  by (auto simp: substring_def min_def max_def)

lemma digit_char_is_digit: "d < 10 \<Longrightarrow> is_digit (digit_char d)"
  unfolding is_digit_def digit_char_def by (rule nth_mem) simp

lemma decimal_digits: "decimal n \<noteq> [] \<and> list_all is_digit (decimal n)"
proof (induction n rule: decimal.induct)
  case (1 n)
  show ?case
  proof (cases "n < 10")
    case True
    then show ?thesis by (simp add: decimal.simps [of n] digit_char_is_digit)
  next
    case False
    then show ?thesis
      using "1.IH" by (simp add: decimal.simps [of n] digit_char_is_digit)
  qed
qed

lemma base36_suffix:
  "base36_fraction r \<Longrightarrow> list_all is_base36 (substring 2 11 r)"
  by (auto simp: base36_fraction_def substring_2_11 list_all_iff dest: in_set_takeD)

lemma generateRequestId_eq:
  "generateRequestId e =
     (''req_'' @ decimal (clock e) @ ''_'' @ substring 2 11 (random_seq e (random_pos e)),
      e\<lparr>random_pos := Suc (random_pos e)\<rparr>)"
  by (simp add: generateRequestId_def Math_random_toString36_def)

text \<open>
  C3, as the code has it. The middleware builds a context whose \<open>requestId\<close> is the value
  of line 217 and runs \<open>next\<close> with that context current. That value is the
  \<open>x-request-id\<close> header verbatim when the header is present and not empty. Otherwise it
  is \<open>req_\<close>, the decimal digits of the clock reading, an underscore, and the characters
  at positions 2 to 10 of the base-36 rendering of the random draw: at most nine
  characters, all digits or lower-case letters when the rendering has the form the
  runtime gives it. Two identifiers generated at the same clock reading are equal exactly
  when those suffixes are equal; nothing makes the suffixes differ.
\<close>

theorem request_id_adopted_or_generated:
  "(\<exists>context h.
       RequestContext_new (req_app (requests (host w) rq)) rq rs
          (case cfg of None \<Rightarrow> [] | Some c \<Rightarrow> c)
          (fst (request_id_for rq (host w))) (clock (host w)) (heap w) = (context, h)
     \<and> get_requestId context h = Inr (fst (request_id_for rq (host w)))
     \<and> asyncContext cfg rq rs next w =
         (case next \<lparr>heap = h, store = Some context, host = snd (request_id_for rq (host w))\<rparr>
          of (r, w') \<Rightarrow> (r, w'\<lparr>store := store w\<rparr>)))
 \<and> (headers (requests (host w) rq) ''x-request-id'' = Some s \<and> s \<noteq> [] \<longrightarrow>
       request_id_for rq (host w) = (s, host w))
 \<and> (headers (requests (host w) rq) ''x-request-id'' = None
      \<or> headers (requests (host w) rq) ''x-request-id'' = Some [] \<longrightarrow>
       fst (request_id_for rq (host w))
         = ''req_'' @ decimal (clock (host w)) @ ''_''
           @ substring 2 11 (random_seq (host w) (random_pos (host w)))
     \<and> decimal (clock (host w)) \<noteq> [] \<and> list_all is_digit (decimal (clock (host w)))
     \<and> length (substring 2 11 (random_seq (host w) (random_pos (host w)))) \<le> 9
     \<and> (base36_fraction (random_seq (host w) (random_pos (host w))) \<longrightarrow>
          list_all is_base36 (substring 2 11 (random_seq (host w) (random_pos (host w))))))
 \<and> (clock e1 = clock e2 \<longrightarrow>
       (fst (generateRequestId e1) = fst (generateRequestId e2)
        \<longleftrightarrow> substring 2 11 (random_seq e1 (random_pos e1))
            = substring 2 11 (random_seq e2 (random_pos e2))))"
proof -
  let ?rid = "fst (request_id_for rq (host w))"
  let ?e = "snd (request_id_for rq (host w))"
  have clk: "clock ?e = clock (host w)" and rqs: "requests ?e = requests (host w)"
    by (simp_all add: request_id_for_def generateRequestId_eq split: option.splits)
  obtain c h where new:
    "RequestContext_new (req_app (requests (host w) rq)) rq rs
          (case cfg of None \<Rightarrow> [] | Some c \<Rightarrow> c) ?rid (clock (host w)) (heap w) = (c, h)"
    by (cases "RequestContext_new (req_app (requests (host w) rq)) rq rs
          (case cfg of None \<Rightarrow> [] | Some c \<Rightarrow> c) ?rid (clock (host w)) (heap w)")
  have rid: "get_requestId c h = Inr ?rid"
    using RequestContext_new_data [OF new] by (simp add: get_requestId_def)
  have new': "RequestContext_new (req_app (requests ?e rq)) rq rs
          (case cfg of None \<Rightarrow> [] | Some c \<Rightarrow> c) ?rid (clock ?e) (heap w) = (c, h)"
    using new clk rqs by simp
  have rw: "w\<lparr>heap := h, host := ?e, store := Some c\<rparr>
              = \<lparr>heap = h, store = Some c, host = ?e\<rparr>"
    by (cases w) simp
  have mw: "asyncContext cfg rq rs next w =
         (case next \<lparr>heap = h, store = Some c, host = ?e\<rparr>
          of (r, w') \<Rightarrow> (r, w'\<lparr>store := store w\<rparr>))"
    by (simp add: asyncContext_def runInContext_def AsyncLocalStorage_run_def Let_def
        case_prod_beta new' rw)
  have part1: "\<exists>context h.
       RequestContext_new (req_app (requests (host w) rq)) rq rs
          (case cfg of None \<Rightarrow> [] | Some c \<Rightarrow> c) ?rid (clock (host w)) (heap w) = (context, h)
     \<and> get_requestId context h = Inr ?rid
     \<and> asyncContext cfg rq rs next w =
         (case next \<lparr>heap = h, store = Some context, host = ?e\<rparr>
          of (r, w') \<Rightarrow> (r, w'\<lparr>store := store w\<rparr>))"
    using new rid mw by blast
  have part2: "headers (requests (host w) rq) ''x-request-id'' = Some s \<and> s \<noteq> [] \<longrightarrow>
       request_id_for rq (host w) = (s, host w)"
    by (simp add: request_id_for_def)
  have part3: "headers (requests (host w) rq) ''x-request-id'' = None
      \<or> headers (requests (host w) rq) ''x-request-id'' = Some [] \<longrightarrow>
       ?rid = ''req_'' @ decimal (clock (host w)) @ ''_''
           @ substring 2 11 (random_seq (host w) (random_pos (host w)))"
    by (auto simp: request_id_for_def generateRequestId_eq)
  have part4: "length (substring 2 11 (random_seq (host w) (random_pos (host w)))) \<le> 9"
    by (simp add: substring_2_11)
  have part5: "clock e1 = clock e2 \<longrightarrow>
       (fst (generateRequestId e1) = fst (generateRequestId e2)
        \<longleftrightarrow> substring 2 11 (random_seq e1 (random_pos e1))
            = substring 2 11 (random_seq e2 (random_pos e2)))"
    by (simp add: generateRequestId_eq)
  show ?thesis
    using part1 part2 part3 part4 part5 decimal_digits [of "clock (host w)"] base36_suffix
    by blast
qed

theorem request_id_adopted_or_generated_witness:
  "headers (requests (host sample_world) 1) ''x-request-id'' = Some ''abc123''
 \<and> ''abc123'' \<noteq> []
 \<and> request_id_for 1 (host sample_world) = (''abc123'', host sample_world)
 \<and> headers (requests (host sample_world) 0) ''x-request-id'' = None
 \<and> base36_fraction (random_seq (host sample_world) (random_pos (host sample_world)))
 \<and> fst (request_id_for 0 (host sample_world)) = ''req_1700000000000_4fzyo82mv''
 \<and> list_all is_base36
       (substring 2 11 (random_seq (host sample_world) (random_pos (host sample_world))))
 \<and> clock sample_host = clock (sample_host\<lparr>random_pos := 1\<rparr>)
 \<and> fst (generateRequestId sample_host)
       = fst (generateRequestId (sample_host\<lparr>random_pos := 1\<rparr>))"
proof -
  have h1: "headers (requests (host sample_world) 1) ''x-request-id'' = Some ''abc123''
              \<and> ''abc123'' \<noteq> []"
    by (simp add: sample_world_def sample_host_def tagged_request_def)
  have h2: "headers (requests (host sample_world) 0) ''x-request-id'' = None"
    by (simp add: sample_world_def sample_host_def plain_request_def)
  have h3: "base36_fraction (random_seq (host sample_world) (random_pos (host sample_world)))"
    by (simp add: sample_world_def sample_host_def base36_fraction_def is_base36_def)
  have h4: "clock sample_host = clock (sample_host\<lparr>random_pos := 1\<rparr>)"
    by simp
  note adopted = request_id_adopted_or_generated
    [where w = sample_world and rq = 1 and s = "''abc123''"]
  note generated = request_id_adopted_or_generated
    [where w = sample_world and rq = 0 and ?e1.0 = sample_host
       and ?e2.0 = "sample_host\<lparr>random_pos := 1\<rparr>"]
  have a: "request_id_for 1 (host sample_world) = (''abc123'', host sample_world)"
    using adopted h1 by blast
  have b: "fst (request_id_for 0 (host sample_world))
         = ''req_'' @ decimal (clock (host sample_world)) @ ''_''
           @ substring 2 11 (random_seq (host sample_world) (random_pos (host sample_world)))"
    using generated h2 by blast
  have b': "fst (request_id_for 0 (host sample_world)) = ''req_1700000000000_4fzyo82mv''"
    unfolding b
    by (simp add: sample_world_def sample_host_def substring_2_11 decimal.simps digit_char_def)
  have c: "list_all is_base36
       (substring 2 11 (random_seq (host sample_world) (random_pos (host sample_world))))"
    using generated h2 h3 by blast
  have d: "fst (generateRequestId sample_host)
             = fst (generateRequestId (sample_host\<lparr>random_pos := 1\<rparr>))
        \<longleftrightarrow> substring 2 11 (random_seq sample_host (random_pos sample_host))
            = substring 2 11 (random_seq (sample_host\<lparr>random_pos := 1\<rparr>)
                               (random_pos (sample_host\<lparr>random_pos := 1\<rparr>)))"
    using generated h4 by blast
  have d': "fst (generateRequestId sample_host)
             = fst (generateRequestId (sample_host\<lparr>random_pos := 1\<rparr>))"
    unfolding d by (simp add: sample_host_def substring_2_11)
  show ?thesis using h1 h2 h3 h4 a b' c d' by blast
qed

text \<open>
  C3 as stated fails: two requests without the header, handled one after the other at
  the same clock reading, with two different random draws, get the same identifier,
  because the draws agree on their first nine base-36 digits. The handler logs the
  identifier of each.
\<close>

theorem same_millisecond_ids_collide:
  "console (host (snd (asyncContext None 0 2 log_request_id
                    (snd (asyncContext None 0 2 log_request_id sample_world)))))
     = [(ConsoleLog, [Text ''req_1700000000000_4fzyo82mv'']),
        (ConsoleLog, [Text ''req_1700000000000_4fzyo82mv''])]
 \<and> clock (host (snd (asyncContext None 0 2 log_request_id sample_world)))
     = clock (host sample_world)
 \<and> headers (requests (host sample_world) 0) ''x-request-id'' = None
 \<and> random_seq sample_host 0 = ''0.4fzyo82mvyr''
 \<and> random_seq sample_host 1 = ''0.4fzyo82mvzz''"
  by (simp add: asyncContext_def runInContext_def AsyncLocalStorage_run_def Let_def
      request_id_for_def generateRequestId_eq substring_2_11 sample_world_def sample_host_def
      plain_request_def RequestContext_new_heap log_request_id_def getContext_def
      AsyncLocalStorage_getStore_def get_requestId_def data_def cell_at_def console_call_def
      decimal.simps digit_char_def)

section \<open>The logger\<close>








lemma logWithContext_emits:
  assumes "SerializeJSONObject (log_context (toISOString e (clock e)) rid (requests e rq) meta)
             = Inr members"
  shows "logWithContext rid rq level message meta e =
           Inr (console_call
                  (if level = ''debug'' then ConsoleDebug
                   else if level = ''info'' then ConsoleInfo
                   else if level = ''warn'' then ConsoleWarn
                   else if level = ''error'' then ConsoleError
                   else ConsoleLog)
                  [Text (''['' @ toISOString e (clock e) @ ''] ['' @ toUpperCase level @ ''] [''
                         @ rid @ ''] '' @ message),
                   Text [CHR 0x0A], JsonText (JsonObject members)] e)"
  using assms by (simp add: logWithContext_def JSON_stringify_def Let_def)

lemma logWithContext_throws:
  assumes "SerializeJSONObject (log_context (toISOString e (clock e)) rid (requests e rq) meta)
             = Inl err"
  shows "logWithContext rid rq level message meta e = Inl err"
  using assms by (simp add: logWithContext_def JSON_stringify_def Let_def)





text \<open>
  C10. Each of the four operations of a logger is \<open>logWithContext\<close> at its own fixed level
  string, and a call of it either throws from \<open>JSON.stringify\<close> or calls the console
  method of that level: \<open>console.log\<close>, the default branch of the switch, is never
  called.
\<close>

theorem default_branch_unreachable:
  "debug (createLogger rid rq) = logWithContext rid rq ''debug''
 \<and> info (createLogger rid rq) = logWithContext rid rq ''info''
 \<and> warn (createLogger rid rq) = logWithContext rid rq ''warn''
 \<and> error (createLogger rid rq) = logWithContext rid rq ''error''
 \<and> ((\<exists>err. debug (createLogger rid rq) message meta e = Inl err)
      \<or> (\<exists>args. debug (createLogger rid rq) message meta e
                  = Inr (console_call ConsoleDebug args e)))
 \<and> ((\<exists>err. info (createLogger rid rq) message meta e = Inl err)
      \<or> (\<exists>args. info (createLogger rid rq) message meta e
                  = Inr (console_call ConsoleInfo args e)))
 \<and> ((\<exists>err. warn (createLogger rid rq) message meta e = Inl err)
      \<or> (\<exists>args. warn (createLogger rid rq) message meta e
                  = Inr (console_call ConsoleWarn args e)))
 \<and> ((\<exists>err. error (createLogger rid rq) message meta e = Inl err)
      \<or> (\<exists>args. error (createLogger rid rq) message meta e
                  = Inr (console_call ConsoleError args e)))"
proof -
  let ?ctx = "log_context (toISOString e (clock e)) rid (requests e rq) meta"
  show ?thesis
  proof (cases "SerializeJSONObject ?ctx")
    case (Inl err)
    then show ?thesis
      by (simp add: createLogger_def logWithContext_throws [OF Inl])
  next
    case (Inr members)
    then show ?thesis
      by (auto simp: createLogger_def logWithContext_emits [OF Inr])
  qed
qed

end
